theory Spec2Isabelle
  imports Complex_Main
begin

section \<open>JavaScript numbers\<close>

text \<open>
  The utility functions of \<^verbatim>\<open>js/utils.js\<close> compute on JavaScript Numbers, the binary64
  values of IEEE 754. A finite Number is modelled by the real number it denotes, next to
  the two infinities and NaN; every arithmetic operation computes the exact real result and
  rounds it to the nearest binary64 value (\<open>fl\<close>), as the language does. The sign of zero
  is not modelled.
\<close>

datatype jsnum = Fin real | PInf | NInf | NaN

datatype js_error = RangeError | TypeError

subsection \<open>Rounding to binary64\<close>

text \<open>Powers of two with any whole exponent.\<close>

definition pow2 :: "int \<Rightarrow> real" where
  "pow2 k = (if 0 \<le> k then 2 ^ nat k else 1 / 2 ^ nat (- k))"

text \<open>Rounding to the nearest whole number, a tie going to the even one.\<close>

definition round_even :: "real \<Rightarrow> int" where
  "round_even x =
     (let n = \<lfloor>x\<rfloor>; r = x - of_int n
      in if r < 1 / 2 then n else if 1 / 2 < r then n + 1 else if even n then n else n + 1)"

text \<open>
  The exponent of the binade that holds \<open>x\<close>: the greatest \<open>e\<close> from \<open>-1022\<close> to 1023 with
  \<open>2^e \<le> |x|\<close>, and \<open>-1022\<close> for the subnormal numbers below \<open>2^(-1022)\<close>.
\<close>

definition binade :: "real \<Rightarrow> int" where
  "binade x = Max (insert (- 1022) (Set.filter (\<lambda>e. pow2 e \<le> \<bar>x\<bar>) {- 1022..1023}))"

text \<open>
  The binary64 value of a real: the nearest multiple of the spacing \<open>2^(e-52)\<close> of its
  binade, a tie going to the even significand, and an infinity when that multiple is
  \<open>2^1024\<close> or beyond.
\<close>

definition fl :: "real \<Rightarrow> jsnum" where
  "fl x =
     (if x = 0 then Fin 0
      else
        let q = pow2 (binade x - 52);
            r = of_int (round_even (x / q)) * q
        in if 2 ^ 1024 \<le> r then PInf else if r \<le> - (2 ^ 1024) then NInf else Fin r)"

subsection \<open>Arithmetic\<close>

text \<open>Unary minus.\<close>

fun jneg :: "jsnum \<Rightarrow> jsnum" where
  "jneg (Fin a) = Fin (- a)"
| "jneg PInf = NInf"
| "jneg NInf = PInf"
| "jneg NaN = NaN"

text \<open>\<^verbatim>\<open>x + y\<close> (Number::add): infinities of opposite sign give NaN.\<close>

fun jadd :: "jsnum \<Rightarrow> jsnum \<Rightarrow> jsnum" where
  "jadd (Fin a) (Fin b) = fl (a + b)"
| "jadd NaN y = NaN"
| "jadd x NaN = NaN"
| "jadd PInf NInf = NaN"
| "jadd NInf PInf = NaN"
| "jadd PInf y = PInf"
| "jadd NInf y = NInf"
| "jadd (Fin a) y = y"

text \<open>\<^verbatim>\<open>x - y\<close> (Number::subtract) is \<^verbatim>\<open>x + (-y)\<close>.\<close>

definition jsub :: "jsnum \<Rightarrow> jsnum \<Rightarrow> jsnum" where
  "jsub x y = jadd x (jneg y)"

text \<open>\<^verbatim>\<open>x * y\<close> (Number::multiply): an infinity times zero is NaN.\<close>

fun jmul :: "jsnum \<Rightarrow> jsnum \<Rightarrow> jsnum" where
  "jmul (Fin a) (Fin b) = fl (a * b)"
| "jmul NaN y = NaN"
| "jmul x NaN = NaN"
| "jmul (Fin a) y = (if a = 0 then NaN else if 0 < a then y else jneg y)"
| "jmul x (Fin b) = (if b = 0 then NaN else if 0 < b then x else jneg x)"
| "jmul x y = (if x = y then PInf else NInf)"

text \<open>
  \<^verbatim>\<open>x / y\<close> (Number::divide): zero by zero and infinity by infinity are NaN, a non-zero
  finite number by zero is an infinity of the sign of the dividend (the zero is \<open>+0\<close>).
\<close>

fun jdiv :: "jsnum \<Rightarrow> jsnum \<Rightarrow> jsnum" where
  "jdiv (Fin a) (Fin b) =
     (if b = 0 then (if a = 0 then NaN else if 0 < a then PInf else NInf) else fl (a / b))"
| "jdiv NaN y = NaN"
| "jdiv x NaN = NaN"
| "jdiv (Fin a) y = Fin 0"
| "jdiv x (Fin b) = (if 0 \<le> b then x else jneg x)"
| "jdiv x y = NaN"

text \<open>Whether a real is a whole number, and whether it is an odd whole number.\<close>

definition is_integral :: "real \<Rightarrow> bool" where
  "is_integral y = (of_int \<lfloor>y\<rfloor> = y)"

definition is_odd_integral :: "real \<Rightarrow> bool" where
  "is_odd_integral y = (is_integral y \<and> odd \<lfloor>y\<rfloor>)"

text \<open>
  \<^verbatim>\<open>Math.pow(base, exponent)\<close> (Number::exponentiate). The language fixes the result for a
  NaN, zero or infinite exponent, for a NaN, zero or infinite base, and for a negative base
  with a fractional exponent. Everywhere else the result is an approximation that the
  language leaves to the implementation: it is the parameter \<open>approx\<close> here, consulted for
  a finite base and exponent only, and not for the exponent 1 (the base itself) or the base
  1 (the result 1), which are exact in every implementation.
\<close>

fun jpow :: "(real \<Rightarrow> real \<Rightarrow> jsnum) \<Rightarrow> jsnum \<Rightarrow> jsnum \<Rightarrow> jsnum" where
  "jpow approx x NaN = NaN"
| "jpow approx x (Fin y) =
     (if y = 0 then Fin 1
      else case x of
        NaN \<Rightarrow> NaN
      | PInf \<Rightarrow> (if 0 < y then PInf else Fin 0)
      | NInf \<Rightarrow> (if 0 < y then (if is_odd_integral y then NInf else PInf) else Fin 0)
      | Fin b \<Rightarrow>
          (if b = 0 then (if 0 < y then Fin 0 else PInf)
           else if b < 0 \<and> \<not> is_integral y then NaN
           else if y = 1 then Fin b
           else if b = 1 then Fin 1
           else approx b y))"
| "jpow approx x PInf =
     (case x of
        NaN \<Rightarrow> NaN
      | Fin b \<Rightarrow> (if 1 < \<bar>b\<bar> then PInf else if \<bar>b\<bar> = 1 then NaN else Fin 0)
      | _ \<Rightarrow> PInf)"
| "jpow approx x NInf =
     (case x of
        NaN \<Rightarrow> NaN
      | Fin b \<Rightarrow> (if 1 < \<bar>b\<bar> then Fin 0 else if \<bar>b\<bar> = 1 then NaN else PInf)
      | _ \<Rightarrow> Fin 0)"

text \<open>
  An implementation of the power that rounds the exact result correctly; \<open>jpow\<close> consults
  it with a fractional exponent for a base above zero only.
\<close>

definition pow_rounded :: "real \<Rightarrow> real \<Rightarrow> jsnum" where
  "pow_rounded b y =
     (if is_integral y then
        (if 0 < y then fl (b ^ nat \<lfloor>y\<rfloor>) else fl (1 / b ^ nat \<lfloor>- y\<rfloor>))
      else fl (b powr y))"

text \<open>\<^verbatim>\<open>x === y\<close> on Numbers: NaN equals nothing, not even itself.\<close>

definition strict_eq :: "jsnum \<Rightarrow> jsnum \<Rightarrow> bool" where
  "strict_eq x y = (x \<noteq> NaN \<and> y \<noteq> NaN \<and> x = y)"

text \<open>\<^verbatim>\<open>x <= y\<close> on Numbers: false as soon as one side is NaN.\<close>

fun jle :: "jsnum \<Rightarrow> jsnum \<Rightarrow> bool" where
  "jle NaN y = False"
| "jle x NaN = False"
| "jle NInf y = True"
| "jle x PInf = True"
| "jle PInf y = False"
| "jle x NInf = False"
| "jle (Fin a) (Fin b) = (a \<le> b)"

text \<open>\<^verbatim>\<open>x < y\<close> on Numbers.\<close>

fun jlt :: "jsnum \<Rightarrow> jsnum \<Rightarrow> bool" where
  "jlt NaN y = False"
| "jlt x NaN = False"
| "jlt PInf y = False"
| "jlt x NInf = False"
| "jlt NInf y = True"
| "jlt x PInf = True"
| "jlt (Fin a) (Fin b) = (a < b)"


subsection \<open>\<^verbatim>\<open>Number(x.toFixed(d))\<close>\<close>

text \<open>
  \<^verbatim>\<open>Number.prototype.toFixed\<close> on a finite \<open>x\<close> with \<open>f\<close> fraction digits: when \<open>x < 0\<close> the
  sign is set aside and \<open>x\<close> negated; then \<open>n\<close> is the integer for which \<open>n / 10^f - x\<close> is as
  close to zero as possible, the larger one when there are two. The digits of \<open>n\<close> are
  printed with the decimal point \<open>f\<close> places from the right; \<open>toFixed_value\<close> is the number
  that the printed string denotes.
\<close>

definition toFixed_n :: "real \<Rightarrow> nat \<Rightarrow> int" where
  "toFixed_n x f = \<lfloor>x * 10 ^ f + 1 / 2\<rfloor>"

definition toFixed_value :: "real \<Rightarrow> nat \<Rightarrow> real" where
  "toFixed_value x f =
     (if x < 0 then - (of_int (toFixed_n (- x) f) / 10 ^ f)
      else of_int (toFixed_n x f) / 10 ^ f)"

text \<open>
  The source always reads the string back with \<^verbatim>\<open>Number(...)\<close>, so the two calls are one
  function here. \<^verbatim>\<open>toFixed\<close> throws a RangeError when the number of digits is outside
  \<open>0..100\<close>; NaN and the infinities print as their names and read back as themselves.
  The Number read back is the one nearest to the decimal printed; it is given here as that
  decimal. (For \<open>|x| \<ge> 10^21\<close> \<^verbatim>\<open>toFixed\<close> prints the shortest representation of \<open>x\<close>, which
  reads back as \<open>x\<close>; a Number of that size is whole, and rounding leaves it alone.)
\<close>

definition toFixed_Number :: "jsnum \<Rightarrow> int \<Rightarrow> js_error + jsnum" where
  "toFixed_Number x d =
     (if d < 0 \<or> 100 < d then Inl RangeError
      else case x of
        Fin r \<Rightarrow> Inr (Fin (toFixed_value r (nat d)))
      | _ \<Rightarrow> Inr x)"

section \<open>Strings read as numbers\<close>

text \<open>
  A string of the language is a sequence of UTF-16 code units, here natural numbers; the
  strings that the program text contains are written as ASCII literals. A value handed to
  \<open>sanitizeNumber\<close> is \<^verbatim>\<open>null\<close>, \<^verbatim>\<open>undefined\<close>, a string or a Number: the documented
  parameter type and the two values the function tests for.
\<close>

type_synonym jsstring = "nat list"

definition ascii :: "string \<Rightarrow> jsstring" where
  "ascii s = map of_char s"


text \<open>
  White space and line terminators: TAB, LF, VT, FF, CR, the space, the no-break space,
  U+1680, U+2000 to U+200A, the line and paragraph separators U+2028 and U+2029, U+202F,
  U+205F, U+3000 and the byte order mark U+FEFF.
\<close>

definition is_ws :: "nat \<Rightarrow> bool" where
  "is_ws c =
     (c \<in> set [0x09, 0x0A, 0x0B, 0x0C, 0x0D, 0x20, 0xA0, 0x1680, 0x2028, 0x2029, 0x202F,
                0x205F, 0x3000, 0xFEFF]
      \<or> (0x2000 \<le> c \<and> c \<le> 0x200A))"

definition is_digit :: "nat \<Rightarrow> bool" where
  "is_digit c = (48 \<le> c \<and> c \<le> 57)"

definition digit_value :: "nat \<Rightarrow> nat" where
  "digit_value c = c - 48"

definition digits_value :: "jsstring \<Rightarrow> nat" where
  "digits_value ds = foldl (\<lambda>a c. 10 * a + digit_value c) 0 ds"

text \<open>
  The exponent part at the head of a string, if there is one: \<^verbatim>\<open>e\<close> or \<^verbatim>\<open>E\<close>, an optional
  sign, digits. An exponent without digits is not part of the number.
\<close>

definition exponent_part :: "jsstring \<Rightarrow> int" where
  "exponent_part s =
     (if take 1 s = ascii ''e'' \<or> take 1 s = ascii ''E'' then
        (if take 1 (drop 1 s) = ascii ''-''
           then - int (digits_value (takeWhile is_digit (drop 2 s)))
         else if take 1 (drop 1 s) = ascii ''+''
           then int (digits_value (takeWhile is_digit (drop 2 s)))
         else int (digits_value (takeWhile is_digit (drop 1 s))))
      else 0)"

definition pow10 :: "int \<Rightarrow> real" where
  "pow10 e = (if 0 \<le> e then 10 ^ nat e else 1 / 10 ^ nat (- e))"

text \<open>
  The longest unsigned decimal literal that a string begins with, as the real number it
  denotes: digits, an optional point and fraction digits, an optional exponent, with a digit
  before or after the point. \<open>None\<close> when the string begins with no such literal.
\<close>

definition unsigned_literal :: "jsstring \<Rightarrow> real option" where
  "unsigned_literal body =
     (let ip = takeWhile is_digit body;
          r1 = dropWhile is_digit body;
          point = (take 1 r1 = ascii ''.'');
          fp = (if point then takeWhile is_digit (drop 1 r1) else []);
          r2 = (if point then dropWhile is_digit (drop 1 r1) else r1)
      in if ip = [] \<and> fp = [] then None
         else Some ((real (digits_value ip) + real (digits_value fp) / 10 ^ length fp)
                      * pow10 (exponent_part r2)))"

text \<open>
  \<^verbatim>\<open>parseFloat(string)\<close>: leading white space is dropped, then the longest prefix that is a
  decimal literal is read (a sign, then \<^verbatim>\<open>Infinity\<close> or an unsigned literal) and whatever
  follows is ignored; the value of the literal is rounded to a Number. With no such prefix
  the result is NaN.
\<close>

definition parseFloat :: "jsstring \<Rightarrow> jsnum" where
  "parseFloat input =
     (let s = dropWhile is_ws input;
          neg = (take 1 s = ascii ''-'');
          body = (if take 1 s = ascii ''-'' \<or> take 1 s = ascii ''+'' then drop 1 s else s)
      in if take 8 body = ascii ''Infinity'' then (if neg then NInf else PInf)
         else case unsigned_literal body of
                None \<Rightarrow> NaN
              | Some m \<Rightarrow> fl (if neg then - m else m))"


section \<open>Utility functions (\<^verbatim>\<open>js/utils.js\<close>)\<close>



text \<open>
  \<^verbatim>\<open>calculatePercentage(value, total, decimals = 2)\<close>. An omitted argument with a default
  is \<open>None\<close>.
\<close>

definition calculatePercentage :: "jsnum \<Rightarrow> jsnum \<Rightarrow> int option \<Rightarrow> js_error + jsnum" where
  "calculatePercentage val total' decimals =
     (if strict_eq total' (Fin 0) then Inr (Fin 0)
      else toFixed_Number (jmul (jdiv val total') (Fin 100))
             (case decimals of None \<Rightarrow> 2 | Some d \<Rightarrow> d))"

text \<open>
  \<^verbatim>\<open>calculateCompoundInterest(principal, rate, time, frequency = 1)\<close>, given the
  approximation that \<^verbatim>\<open>Math.pow\<close> computes.
\<close>

definition calculateCompoundInterest ::
  "(real \<Rightarrow> real \<Rightarrow> jsnum) \<Rightarrow> jsnum \<Rightarrow> jsnum \<Rightarrow> jsnum \<Rightarrow> jsnum option \<Rightarrow> js_error + jsnum" where
  "calculateCompoundInterest approx principal' rate time frequency =
     (let freq = (case frequency of None \<Rightarrow> Fin 1 | Some f \<Rightarrow> f);
          amount = jmul principal' (jpow approx (jadd (Fin 1) (jdiv rate freq)) (jmul freq time))
      in toFixed_Number amount 2)"

text \<open>
  \<^verbatim>\<open>calculateMonthlyPayment(principal, rate, months)\<close>, given the approximation that
  \<^verbatim>\<open>Math.pow\<close> computes.
\<close>

definition calculateMonthlyPayment ::
  "(real \<Rightarrow> real \<Rightarrow> jsnum) \<Rightarrow> jsnum \<Rightarrow> jsnum \<Rightarrow> jsnum \<Rightarrow> js_error + jsnum" where
  "calculateMonthlyPayment approx principal' rate months =
     (if strict_eq rate (Fin 0) then Inr (jdiv principal' months)
      else
        let monthlyRate = jdiv rate (Fin 12);
            payment =
              jdiv (jmul principal'
                      (jmul monthlyRate (jpow approx (jadd (Fin 1) monthlyRate) months)))
                   (jsub (jpow approx (jadd (Fin 1) monthlyRate) months) (Fin 1))
        in toFixed_Number payment 2)"

section \<open>Tax tables (\<^verbatim>\<open>js/constants.js\<close>)\<close>

text \<open>A tax bracket is an object with the keys \<^verbatim>\<open>min\<close>, \<^verbatim>\<open>max\<close> and \<^verbatim>\<open>rate\<close>.\<close>

record bracket =
  bracket_min :: jsnum
  bracket_max :: jsnum
  bracket_rate :: jsnum

definition TAX_BRACKETS_2024 :: "bracket list" where
  "TAX_BRACKETS_2024 =
     [\<lparr>bracket_min = Fin 0, bracket_max = Fin 11000, bracket_rate = Fin (10 / 100)\<rparr>,
      \<lparr>bracket_min = Fin 11000, bracket_max = Fin 44725, bracket_rate = Fin (12 / 100)\<rparr>,
      \<lparr>bracket_min = Fin 44725, bracket_max = Fin 95375, bracket_rate = Fin (22 / 100)\<rparr>,
      \<lparr>bracket_min = Fin 95375, bracket_max = Fin 182050, bracket_rate = Fin (24 / 100)\<rparr>,
      \<lparr>bracket_min = Fin 182050, bracket_max = Fin 231250, bracket_rate = Fin (32 / 100)\<rparr>,
      \<lparr>bracket_min = Fin 231250, bracket_max = Fin 578125, bracket_rate = Fin (35 / 100)\<rparr>,
      \<lparr>bracket_min = Fin 578125, bracket_max = PInf, bracket_rate = Fin (37 / 100)\<rparr>]"

text \<open>
  The object \<^verbatim>\<open>STATE_TAX_RATES\<close>, its entries in the order written; as a lookup table it is
  \<open>map_of STATE_TAX_RATES\<close>.
\<close>

definition STATE_TAX_RATES :: "(string \<times> jsnum) list" where
  "STATE_TAX_RATES =
     [(''AL'', Fin (5 / 100)), (''AR'', Fin (49 / 1000)), (''AZ'', Fin (25 / 1000)),
      (''CA'', Fin (7 / 100)), (''CO'', Fin (44 / 1000)),
      (''CT'', Fin (5 / 100)), (''DC'', Fin (6 / 100)), (''DE'', Fin (52 / 1000)),
      (''GA'', Fin (47 / 1000)), (''HI'', Fin (7 / 100)),
      (''IA'', Fin (5 / 100)), (''ID'', Fin (56 / 1000)), (''IL'', Fin (495 / 10000)),
      (''IN'', Fin (315 / 10000)), (''KS'', Fin (52 / 1000)),
      (''KY'', Fin (45 / 1000)), (''LA'', Fin (45 / 1000)), (''MA'', Fin (5 / 100)),
      (''MD'', Fin (55 / 1000)), (''ME'', Fin (58 / 1000)),
      (''MI'', Fin (425 / 10000)), (''MN'', Fin (58 / 1000)), (''MO'', Fin (48 / 1000)),
      (''MS'', Fin (5 / 100)), (''MT'', Fin (55 / 1000)),
      (''NC'', Fin (475 / 10000)), (''ND'', Fin (2 / 100)), (''NE'', Fin (5 / 100)),
      (''NJ'', Fin (55 / 1000)), (''NM'', Fin (49 / 1000)),
      (''NY'', Fin (58 / 1000)), (''OH'', Fin (275 / 10000)), (''OK'', Fin (475 / 10000)),
      (''OR'', Fin (75 / 1000)), (''PA'', Fin (307 / 10000)),
      (''RI'', Fin (5 / 100)), (''SC'', Fin (53 / 1000)), (''UT'', Fin (465 / 10000)),
      (''VA'', Fin (5 / 100)), (''VT'', Fin (6 / 100)),
      (''WI'', Fin (53 / 1000)), (''WV'', Fin (5 / 100))]"

definition NO_TAX_STATES :: "string set" where
  "NO_TAX_STATES = set [''AK'', ''FL'', ''NV'', ''NH'', ''SD'', ''TN'', ''TX'', ''WA'', ''WY'']"

section \<open>The income form (\<^verbatim>\<open>js/uiUtils.js\<close>)\<close>















section \<open>The bracket invariant as the specification words it\<close>

text \<open>
  A bracket has a lower bound of at least zero, an upper bound above the lower bound (it
  may be unbounded) and a marginal rate between 0 and 1. A table is ascending when the lower
  bounds increase, contiguous when each upper bound is the next lower bound; an income is in
  a bracket from its lower bound up to, not including, its upper bound.
\<close>

definition bracket_wf :: "bracket \<Rightarrow> bool" where
  "bracket_wf b =
     (jle (Fin 0) (bracket_min b) \<and> jlt (bracket_min b) (bracket_max b) \<and>
      jle (Fin 0) (bracket_rate b) \<and> jle (bracket_rate b) (Fin 1))"

fun contiguous :: "bracket list \<Rightarrow> bool" where
  "contiguous (a # b # bs) = (bracket_max a = bracket_min b \<and> contiguous (b # bs))"
| "contiguous bs = True"

fun ascending :: "bracket list \<Rightarrow> bool" where
  "ascending (a # b # bs) = (jlt (bracket_min a) (bracket_min b) \<and> ascending (b # bs))"
| "ascending bs = True"

definition in_bracket :: "real \<Rightarrow> bracket \<Rightarrow> bool" where
  "in_bracket x b = (jle (bracket_min b) (Fin x) \<and> jlt (Fin x) (bracket_max b))"

section \<open>Decimal numerals as the specification reads them\<close>



section \<open>Rounding as the specification words it\<close>

text \<open>
  Rounding to the nearest whole number, a tie going away from zero, and rounding to \<open>d\<close>
  decimal places by scaling. These follow the wording of the specification (``rounded to 2
  decimal places using round-half-away-from-zero''); \<open>toFixed_value\<close> above follows the
  algorithm of the language. The two are compared in \<open>toFixed_value_round\<close>.
\<close>

definition round_half_away :: "real \<Rightarrow> real" where
  "round_half_away x = sgn x * of_int \<lfloor>\<bar>x\<bar> + 1 / 2\<rfloor>"

definition round_decimals :: "nat \<Rightarrow> real \<Rightarrow> real" where
  "round_decimals d x = round_half_away (x * 10 ^ d) / 10 ^ d"

section \<open>Properties of the rounding to decimals\<close>

lemma round_half_away_nearest: "\<bar>round_half_away x - x\<bar> \<le> 1 / 2"
proof (cases "x < 0")
  case True
  then have "round_half_away x = - of_int \<lfloor>- x + 1 / 2\<rfloor>"
    by (simp add: round_half_away_def)
  then show ?thesis by linarith
next
  case False
  then have "round_half_away x = of_int \<lfloor>x + 1 / 2\<rfloor>"
    by (cases "x = 0") (simp_all add: round_half_away_def)
  then show ?thesis by linarith
qed

lemma round_half_away_tie:
  assumes "x = of_int k + 1 / 2"
  shows "round_half_away x = (if 0 \<le> x then of_int k + 1 else of_int k)"
proof (cases "x < 0")
  case True
  have "\<lfloor>- x + 1 / 2\<rfloor> = - k" using assms by linarith
  with True show ?thesis by (simp add: round_half_away_def)
next
  case False
  have "\<lfloor>x + 1 / 2\<rfloor> = k + 1" using assms by linarith
  moreover have "x \<noteq> 0 \<or> k + 1 = 0" using assms by linarith
  ultimately show ?thesis using False by (auto simp add: round_half_away_def sgn_if)
qed

text \<open>
  \<open>toFixed_n\<close> is the integer the language asks for: none is closer to \<open>x \<times> 10^f\<close>, and of two
  that are equally close it is the larger.
\<close>

lemma toFixed_n_closest:
  "\<bar>of_int (toFixed_n x f) - x * 10 ^ f\<bar> \<le> \<bar>of_int k - x * 10 ^ f\<bar>"
proof -
  define y where "y = x * 10 ^ f"
  define n where "n = \<lfloor>y + 1 / 2\<rfloor>"
  have lo: "of_int n \<le> y + 1 / 2" and hi: "y + 1 / 2 < of_int n + 1"
    unfolding n_def by linarith+
  consider "k \<le> n - 1" | "k = n" | "n + 1 \<le> k" by linarith
  then have "\<bar>of_int n - y\<bar> \<le> \<bar>of_int k - y\<bar>"
  proof cases
    case 1
    then have "real_of_int k \<le> of_int n - 1" by linarith
    with lo hi show ?thesis by linarith
  next
    case 2
    then show ?thesis by simp
  next
    case 3
    then have "real_of_int n + 1 \<le> of_int k" by linarith
    with lo hi show ?thesis by linarith
  qed
  then show ?thesis by (simp add: toFixed_n_def y_def n_def)
qed

lemma toFixed_n_larger:
  assumes "\<bar>of_int k - x * 10 ^ f\<bar> = \<bar>of_int (toFixed_n x f) - x * 10 ^ f\<bar>"
  shows "k \<le> toFixed_n x f"
proof -
  define y where "y = x * 10 ^ f"
  define n where "n = \<lfloor>y + 1 / 2\<rfloor>"
  have lo: "of_int n \<le> y + 1 / 2" and hi: "y + 1 / 2 < of_int n + 1"
    unfolding n_def by linarith+
  have eq: "\<bar>of_int k - y\<bar> = \<bar>of_int n - y\<bar>"
    using assms by (simp add: toFixed_n_def y_def n_def)
  have "k \<le> n"
  proof (rule ccontr)
    assume "\<not> k \<le> n"
    then have "real_of_int n + 1 \<le> of_int k" by linarith
    with lo hi eq show False by linarith
  qed
  then show ?thesis by (simp add: toFixed_n_def y_def n_def)
qed

text \<open>What \<^verbatim>\<open>toFixed\<close> prints is the number rounded half away from zero.\<close>

lemma toFixed_value_round: "toFixed_value x f = round_decimals f x"
proof (cases "x < 0")
  case True
  then have "x * 10 ^ f < 0" by (simp add: mult_less_0_iff)
  with True show ?thesis
    by (simp add: toFixed_value_def toFixed_n_def round_decimals_def round_half_away_def)
next
  case False
  then have "0 \<le> x * 10 ^ f" by simp
  with False show ?thesis
    by (cases "x = 0")
       (simp_all add: toFixed_value_def toFixed_n_def round_decimals_def round_half_away_def sgn_if)
qed

lemma toFixed_Number_2:
  "toFixed_Number x 2 = (case x of Fin a \<Rightarrow> Inr (Fin (round_decimals 2 a)) | z \<Rightarrow> Inr z)"
  by (cases x) (simp_all add: toFixed_Number_def toFixed_value_round)

lemma is_integral_floor: "is_integral y \<Longrightarrow> y = of_int \<lfloor>y\<rfloor>"
  unfolding is_integral_def by (rule sym)

lemma round_half_away_of_int: "round_half_away (of_int k) = of_int k"
proof -
  have "\<lfloor>\<bar>real_of_int k\<bar> + 1 / 2\<rfloor> = \<bar>k\<bar>" by linarith
  then show ?thesis by (simp add: round_half_away_def sgn_if)
qed

lemma round_decimals_id:
  assumes "is_integral (p * 10 ^ d)"
  shows "round_decimals d p = p"
proof -
  from assms have "p * 10 ^ d = of_int \<lfloor>p * 10 ^ d\<rfloor>" by (rule is_integral_floor)
  then have "round_half_away (p * 10 ^ d) = p * 10 ^ d"
    using round_half_away_of_int [of "\<lfloor>p * 10 ^ d\<rfloor>"] by simp
  then show ?thesis by (simp add: round_decimals_def)
qed

section \<open>Properties of the rounding to binary64\<close>

lemma pow2_powr: "pow2 k = 2 powr (of_int k)"
proof (cases "0 \<le> k")
  case True
  then have "2 powr (of_int k) = (2::real) powr real (nat k)" by simp
  also have "\<dots> = 2 ^ nat k" by (simp add: powr_realpow)
  finally show ?thesis using True by (simp add: pow2_def)
next
  case False
  then have "(2::real) powr (of_int k) = 2 powr (- real (nat (- k)))" by simp
  also have "\<dots> = inverse (2 powr real (nat (- k)))" by (rule powr_minus)
  also have "\<dots> = 1 / 2 ^ nat (- k)" by (simp add: powr_realpow inverse_eq_divide)
  finally show ?thesis using False by (simp add: pow2_def)
qed

lemma pow2_pos: "0 < pow2 k"
  by (simp add: pow2_powr)

lemma pow2_add: "pow2 (j + k) = pow2 j * pow2 k"
  by (simp add: pow2_powr powr_add)

lemma pow2_mono: "j \<le> k \<Longrightarrow> pow2 j \<le> pow2 k"
  by (simp add: pow2_powr)

lemma binade_finite:
  "finite (insert (- 1022) (Set.filter P {- 1022..1023 :: int}))"
proof -
  have "Set.filter P {- 1022..1023 :: int} \<subseteq> {- 1022..1023}" by auto
  then have "finite (Set.filter P {- 1022..1023 :: int})" by (rule finite_subset) simp
  then show ?thesis by simp
qed

lemma binade_eq:
  assumes "pow2 k \<le> \<bar>x\<bar>" "\<bar>x\<bar> < pow2 (k + 1)" "- 1022 \<le> k" "k \<le> 1023"
  shows "binade x = k"
  unfolding binade_def
proof (rule Max_eqI)
  show "finite (insert (- 1022) (Set.filter (\<lambda>e. pow2 e \<le> \<bar>x\<bar>) {- 1022..1023}))"
    by (rule binade_finite)
  show "k \<in> insert (- 1022) (Set.filter (\<lambda>e. pow2 e \<le> \<bar>x\<bar>) {- 1022..1023})"
    using assms by simp
  fix y
  assume "y \<in> insert (- 1022) (Set.filter (\<lambda>e. pow2 e \<le> \<bar>x\<bar>) {- 1022..1023})"
  then consider "y = - 1022" | "pow2 y \<le> \<bar>x\<bar>" by auto
  then show "y \<le> k"
  proof cases
    case 1
    then show ?thesis using assms(3) by simp
  next
    case 2
    show ?thesis
    proof (rule ccontr)
      assume "\<not> y \<le> k"
      then have "k + 1 \<le> y" by simp
      then have "pow2 (k + 1) \<le> pow2 y" by (rule pow2_mono)
      with 2 assms(2) show False by linarith
    qed
  qed
qed

lemma binade_subnormal:
  assumes "\<bar>x\<bar> < pow2 (- 1022)"
  shows "binade x = - 1022"
  unfolding binade_def
proof (rule Max_eqI)
  show "finite (insert (- 1022) (Set.filter (\<lambda>e. pow2 e \<le> \<bar>x\<bar>) {- 1022..1023}))"
    by (rule binade_finite)
  show "- 1022 \<in> insert (- 1022) (Set.filter (\<lambda>e. pow2 e \<le> \<bar>x\<bar>) {- 1022..1023})" by simp
  fix y
  assume "y \<in> insert (- 1022) (Set.filter (\<lambda>e. pow2 e \<le> \<bar>x\<bar>) {- 1022..1023})"
  then consider "y = - 1022" | "pow2 y \<le> \<bar>x\<bar>" "- 1022 \<le> y" by auto
  then show "y \<le> - 1022"
  proof cases
    case 1
    then show ?thesis by simp
  next
    case 2
    from 2(2) have "pow2 (- 1022) \<le> pow2 y" by (rule pow2_mono)
    with 2(1) assms show ?thesis by linarith
  qed
qed

lemma binade_overflow:
  assumes "pow2 1023 \<le> \<bar>x\<bar>"
  shows "binade x = 1023"
  unfolding binade_def
proof (rule Max_eqI)
  show "finite (insert (- 1022) (Set.filter (\<lambda>e. pow2 e \<le> \<bar>x\<bar>) {- 1022..1023}))"
    by (rule binade_finite)
  show "1023 \<in> insert (- 1022) (Set.filter (\<lambda>e. pow2 e \<le> \<bar>x\<bar>) {- 1022..1023})"
    using assms by simp
  fix y
  assume "y \<in> insert (- 1022) (Set.filter (\<lambda>e. pow2 e \<le> \<bar>x\<bar>) {- 1022..1023})"
  then show "y \<le> 1023" by auto
qed

lemma binade_le:
  assumes "pow2 (- 1022) \<le> \<bar>x\<bar>"
  shows "pow2 (binade x) \<le> \<bar>x\<bar>"
proof -
  have "binade x \<in> insert (- 1022) (Set.filter (\<lambda>e. pow2 e \<le> \<bar>x\<bar>) {- 1022..1023})"
    unfolding binade_def by (rule Max_in) (rule binade_finite, simp)
  then consider "binade x = - 1022" | "pow2 (binade x) \<le> \<bar>x\<bar>" by auto
  then show ?thesis using assms by cases simp_all
qed

lemma fl_eval:
  assumes "pow2 k \<le> \<bar>x\<bar>" "\<bar>x\<bar> < pow2 (k + 1)" "- 1022 \<le> k" "k \<le> 1023"
  shows "fl x =
     (let r = of_int (round_even (x / pow2 (k - 52))) * pow2 (k - 52)
      in if 2 ^ 1024 \<le> r then PInf else if r \<le> - (2 ^ 1024) then NInf else Fin r)"
proof -
  have "x \<noteq> 0" using assms pow2_pos [of k] by auto
  then show ?thesis by (simp add: fl_def binade_eq [OF assms] Let_def)
qed

lemma round_even_near: "\<bar>of_int (round_even x) - x\<bar> \<le> 1 / 2"
  unfolding round_even_def Let_def by (auto; linarith)


lemma round_even_nonneg: "0 \<le> x \<Longrightarrow> 0 \<le> round_even x"
  unfolding round_even_def Let_def by (auto; linarith)

text \<open>The relative error of the rounding in the normal range is at most \<open>2^(-53)\<close>.\<close>
lemma fl_rel_error:
  assumes "pow2 (- 1022) \<le> \<bar>x\<bar>" "fl x = Fin y"
  shows "\<bar>y - x\<bar> \<le> \<bar>x\<bar> / 2 ^ 53"
proof -
  have nz: "x \<noteq> 0" using assms(1) pow2_pos [of "- 1022"] by auto
  define q where "q = pow2 (binade x - 52)"
  define m where "m = round_even (x / q)"
  have qpos: "0 < q" by (simp add: q_def pow2_pos)
  have y: "y = of_int m * q"
    using assms(2) nz by (simp add: fl_def Let_def q_def m_def split: if_splits)
  have "\<bar>of_int m - x / q\<bar> \<le> 1 / 2" unfolding m_def by (rule round_even_near)
  then have "\<bar>of_int m - x / q\<bar> * q \<le> 1 / 2 * q" using qpos by (simp add: mult_right_mono)
  moreover have "(of_int m - x / q) * q = of_int m * q - x"
    using qpos by (simp add: left_diff_distrib)
  then have "\<bar>of_int m - x / q\<bar> * q = \<bar>of_int m * q - x\<bar>"
    using qpos abs_mult [of "of_int m - x / q" q] by simp
  ultimately have e: "\<bar>y - x\<bar> \<le> q / 2" using y by simp
  have "pow2 (binade x) = q * 2 ^ 52"
    using pow2_add [of "binade x - 52" 52] by (simp add: q_def pow2_def)
  then have "q * 2 ^ 52 \<le> \<bar>x\<bar>" using binade_le [OF assms(1)] by simp
  then have "q / 2 \<le> \<bar>x\<bar> / 2 ^ 53" by (simp add: field_simps)
  with e show ?thesis by linarith
qed


lemma fl_0: "fl 0 = Fin 0"
  by (simp add: fl_def)

lemma fl_1: "fl 1 = Fin 1"
  using fl_eval [of 0 1] by (simp add: pow2_def round_even_def Let_def)




lemma fl_12: "fl 12 = Fin 12"
  using fl_eval [of 3 12] by (simp add: pow2_def round_even_def Let_def)

lemma fl_eval_subnormal:
  assumes "pow2 k \<le> \<bar>x\<bar>" "\<bar>x\<bar> < pow2 (k + 1)" "k < - 1022"
  shows "fl x = Fin (of_int (round_even (x / pow2 (- 1074))) * pow2 (- 1074))"
proof -
  have nz: "x \<noteq> 0" using assms pow2_pos [of k] by auto
  define q where "q = pow2 (- 1074)"
  have qpos: "0 < q" by (simp add: q_def pow2_pos)
  have "k + 1 \<le> - 1022" using assms(3) by simp
  then have "pow2 (k + 1) \<le> pow2 (- 1022)" by (rule pow2_mono)
  then have lt: "\<bar>x\<bar> < pow2 (- 1022)" using assms(2) by linarith
  then have b: "binade x = - 1022" by (rule binade_subnormal)
  have "pow2 (- 1022) = q * 2 ^ 52"
    using pow2_add [of "- 1074" 52] by (simp add: q_def pow2_def)
  with lt have "\<bar>x / q\<bar> < 2 ^ 52" using qpos by (simp add: field_simps abs_mult)
  moreover have "\<bar>of_int (round_even (x / q)) - x / q\<bar> \<le> 1 / 2" by (rule round_even_near)
  ultimately have "\<bar>real_of_int (round_even (x / q))\<bar> < 2 ^ 52 + 1" by linarith
  then have "\<bar>real_of_int (round_even (x / q)) * q\<bar> < (2 ^ 52 + 1) * q"
    using qpos by (simp add: abs_mult)
  moreover have "(2 ^ 52 + 1) * q < 2 ^ 1024" by (simp add: q_def pow2_def)
  ultimately have "\<bar>real_of_int (round_even (x / q)) * q\<bar> < 2 ^ 1024" by linarith
  then have "\<not> 2 ^ 1024 \<le> real_of_int (round_even (x / q)) * q"
    and "\<not> real_of_int (round_even (x / q)) * q \<le> - (2 ^ 1024)" by linarith+
  then show ?thesis using nz b by (simp add: fl_def Let_def q_def)
qed

lemma round_even_floor: "\<lfloor>x\<rfloor> \<le> round_even x"
  unfolding round_even_def Let_def by auto

lemma fl_overflow:
  assumes "2 ^ 1024 \<le> x"
  shows "fl x = PInf"
proof -
  have p: "pow2 1023 \<le> \<bar>x\<bar>"
  proof -
    have "pow2 1023 \<le> pow2 1024" by (rule pow2_mono) simp
    moreover have "pow2 1024 = 2 ^ 1024" by (simp add: pow2_def)
    ultimately show ?thesis using assms by linarith
  qed
  have nz: "x \<noteq> 0" using p pow2_pos [of 1023] by auto
  have b: "binade x = 1023" using p by (rule binade_overflow)
  define q where "q = pow2 971"
  have qpos: "0 < q" by (simp add: q_def pow2_pos)
  have e: "q * 2 ^ 53 = 2 ^ 1024"
    using pow2_add [of 971 53] by (simp add: q_def pow2_def)
  then have "2 ^ 53 \<le> x / q" using assms qpos by (simp add: field_simps)
  then have "(2 ^ 53 :: int) \<le> \<lfloor>x / q\<rfloor>" by (simp add: le_floor_iff)
  then have "(2 ^ 53 :: int) \<le> round_even (x / q)" using round_even_floor [of "x / q"] by linarith
  then have "(2 ^ 53 :: real) \<le> of_int (round_even (x / q))"
    by (metis of_int_le_iff of_int_numeral of_int_power)
  then have "2 ^ 53 * q \<le> of_int (round_even (x / q)) * q"
    using qpos by (simp add: mult_right_mono)
  then have "2 ^ 1024 \<le> of_int (round_even (x / q)) * q" using e by (simp add: mult.commute)
  then show ?thesis using nz b by (simp add: fl_def Let_def q_def)
qed

lemma fl_examples:
  "fl (1 / 10) = Fin (3602879701896397 / 36028797018963968)"
  "fl (2 ^ 1024) = PInf"
  "fl (- (2 ^ 1024 - 2 ^ 970)) = NInf"
  "fl (1 / 2 ^ 1075) = Fin 0"
  "fl (3 / 2 ^ 1075) = Fin (2 / 2 ^ 1074)"
proof -
  show "fl (1 / 10) = Fin (3602879701896397 / 36028797018963968)"
    using fl_eval [of "- 4" "1 / 10"] by (simp add: pow2_def round_even_def Let_def)
  show "fl (2 ^ 1024) = PInf"
    using fl_overflow [of "2 ^ 1024"] by simp
  show "fl (- (2 ^ 1024 - 2 ^ 970)) = NInf"
    using fl_eval [of 1023 "- (2 ^ 1024 - 2 ^ 970)"] by (simp add: pow2_def round_even_def Let_def)
  show "fl (1 / 2 ^ 1075) = Fin 0"
    using fl_eval_subnormal [of "- 1075" "1 / 2 ^ 1075"] by (simp add: pow2_def round_even_def Let_def)
  show "fl (3 / 2 ^ 1075) = Fin (2 / 2 ^ 1074)"
    using fl_eval_subnormal [of "- 1074" "3 / 2 ^ 1075"] by (simp add: pow2_def round_even_def Let_def)
qed

section \<open>Percentages\<close>

lemma percentage_error:
  assumes "pow2 (- 1022) \<le> \<bar>x\<bar>" "jmul (fl x) (Fin 100) = Fin a"
  shows "\<bar>a - x * 100\<bar> \<le> \<bar>x * 100\<bar> / 2 ^ 51"
proof -
  obtain b where b: "fl x = Fin b"
    using assms(2) by (cases "fl x") (simp_all split: if_splits)
  have eb: "\<bar>b - x\<bar> \<le> \<bar>x\<bar> / 2 ^ 53" using assms(1) b by (rule fl_rel_error)
  have a: "fl (b * 100) = Fin a" using assms(2) b by simp
  have p: "0 < pow2 (- 1022)" by (rule pow2_pos)
  have "\<bar>x\<bar> / 2 ^ 53 \<le> \<bar>x\<bar> / 2" by (simp add: field_simps)
  with eb have lo: "\<bar>x\<bar> / 2 \<le> \<bar>b\<bar>" and hi: "\<bar>b\<bar> \<le> 2 * \<bar>x\<bar>" by linarith+
  have "pow2 (- 1022) \<le> \<bar>b * 100\<bar>" using lo assms(1) p by (simp add: abs_mult)
  then have ea: "\<bar>a - b * 100\<bar> \<le> \<bar>b * 100\<bar> / 2 ^ 53" using a by (rule fl_rel_error)
  have "\<bar>b * 100\<bar> / 2 ^ 53 \<le> 200 * \<bar>x\<bar> / 2 ^ 53" using hi by (simp add: abs_mult field_simps)
  with ea have 1: "\<bar>a - b * 100\<bar> \<le> 200 * \<bar>x\<bar> / 2 ^ 53" by linarith
  have "b * 100 - x * 100 = (b - x) * 100" by (simp add: algebra_simps)
  then have "\<bar>b * 100 - x * 100\<bar> = 100 * \<bar>b - x\<bar>"
    using abs_mult [of "b - x" 100] by simp
  with eb have 2: "\<bar>b * 100 - x * 100\<bar> \<le> 100 * \<bar>x\<bar> / 2 ^ 53" by simp
  have "\<bar>a - x * 100\<bar> \<le> \<bar>a - b * 100\<bar> + \<bar>b * 100 - x * 100\<bar>" by linarith
  with 1 2 have "\<bar>a - x * 100\<bar> \<le> 300 * \<bar>x\<bar> / 2 ^ 53" by linarith
  moreover have "300 * \<bar>x\<bar> / 2 ^ 53 \<le> \<bar>x * 100\<bar> / 2 ^ 51" by (simp add: abs_mult field_simps)
  ultimately show ?thesis by linarith
qed

text \<open>
  Claim C8 says that with a total other than zero \<open>calculatePercentage\<close> returns
  \<open>value / total \<times> 100\<close> rounded to the requested number of decimals. The quotient and the
  product are each rounded to a Number before \<^verbatim>\<open>toFixed\<close> sees them: for 23 of 40 the
  product is just below 57.5, and at 0 decimals the result is 57 where the exact
  percentage 57.5 rounds to 58.
\<close>

theorem calculatePercentage_binary64:
  "calculatePercentage (Fin 23) (Fin 40) (Some 0) = Inr (Fin 57) \<and>
   round_decimals 0 (23 / 40 * 100) = 58"
proof -
  have s1: "jdiv (Fin 23) (Fin 40) = Fin (2589569785738035 / 4503599627370496)"
    using fl_eval [of "- 1" "23 / 40"]
    by (simp add: pow2_def round_even_def Let_def jsub_def)
  have s2: "jmul (Fin (2589569785738035 / 4503599627370496)) (Fin 100) = Fin (8092405580431359 / 140737488355328)"
    using fl_eval [of 5 "(2589569785738035 / 4503599627370496) * 100"]
    by (simp add: pow2_def round_even_def Let_def jsub_def)
  have "calculatePercentage (Fin 23) (Fin 40) (Some 0) =
      toFixed_Number (jmul (jdiv (Fin 23) (Fin 40)) (Fin 100)) 0"
    by (simp add: calculatePercentage_def strict_eq_def del: jmul.simps jdiv.simps)
  also have "\<dots> = toFixed_Number (Fin (8092405580431359 / 140737488355328)) 0"
    by (simp only: s1 s2)
  also have "\<dots> = Inr (Fin 57)"
    by (simp add: toFixed_Number_def toFixed_value_def toFixed_n_def)
  finally have code: "calculatePercentage (Fin 23) (Fin 40) (Some 0) = Inr (Fin 57)" .
  have "round_decimals 0 (23 / 40 * 100) = 58"
    by (simp add: round_decimals_def round_half_away_def)
  with code show ?thesis by simp
qed


text \<open>
  Claim C8, amended. With a total of zero \<open>calculatePercentage\<close> returns 0, whatever the
  value and the number of decimals, and divides nothing. With any other total and a number
  of decimals from 0 to 100 (2 when none is given) it returns, rounded to that number of
  decimals half away from zero, the Number that the language computes for
  \<open>(value / total) \<times> 100\<close>, the quotient and the product each rounded to binary64; outside
  0 to 100 \<^verbatim>\<open>toFixed\<close> throws a RangeError. When \<open>value / total\<close> is in the normal range, the
  Number that is rounded lies within a relative error of \<open>2^(-51)\<close> of the exact percentage.
\<close>

theorem calculatePercentage_spec:
  assumes "t \<noteq> 0"
  shows "calculatePercentage v0 (Fin 0) d0 = Inr (Fin 0) \<and>
    calculatePercentage (Fin v) (Fin t) dec =
      (let d = (case dec of None \<Rightarrow> 2 | Some d \<Rightarrow> d)
       in if d < 0 \<or> 100 < d then Inl RangeError
          else case jmul (fl (v / t)) (Fin 100) of
                 Fin a \<Rightarrow> Inr (Fin (round_decimals (nat d) a))
               | z \<Rightarrow> Inr z) \<and>
    (pow2 (- 1022) \<le> \<bar>v / t\<bar> \<longrightarrow> jmul (fl (v / t)) (Fin 100) = Fin a \<longrightarrow>
       \<bar>a - v / t * 100\<bar> \<le> \<bar>v / t * 100\<bar> / 2 ^ 51)"
proof -
  have 1: "calculatePercentage v0 (Fin 0) d0 = Inr (Fin 0)"
    by (simp add: calculatePercentage_def strict_eq_def)
  have 2: "calculatePercentage (Fin v) (Fin t) dec =
      (let d = (case dec of None \<Rightarrow> 2 | Some d \<Rightarrow> d)
       in if d < 0 \<or> 100 < d then Inl RangeError
          else case jmul (fl (v / t)) (Fin 100) of
                 Fin a \<Rightarrow> Inr (Fin (round_decimals (nat d) a))
               | z \<Rightarrow> Inr z)"
    using assms
    by (simp add: calculatePercentage_def strict_eq_def toFixed_Number_def toFixed_value_round
        Let_def del: jmul.simps split: jsnum.split)
  from 1 2 percentage_error [of "v / t" a] show ?thesis by simp
qed

theorem calculatePercentage_spec_witness:
  "(160 :: real) \<noteq> 0 \<and> calculatePercentage NaN (Fin 0) None = Inr (Fin 0) \<and>
   calculatePercentage (Fin 23) (Fin 160) None = Inr (Fin (1437 / 100)) \<and>
   calculatePercentage (Fin 23) (Fin 160) (Some 101) = Inl RangeError"
proof -
  have f1: "fl (23 / 160) = Fin (2589569785738035 / 18014398509481984)"
    using fl_eval [of "- 3" "23 / 160"]
    by (simp add: pow2_def round_even_def Let_def)
  have t2: "jmul (Fin (2589569785738035 / 18014398509481984)) (Fin 100) = Fin (8092405580431359 / 562949953421312)"
    using fl_eval [of 3 "(2589569785738035 / 18014398509481984) * 100"]
    by (simp add: pow2_def round_even_def Let_def jsub_def)
  have t3: "jmul (fl (23 / 160)) (Fin 100) = Fin (8092405580431359 / 562949953421312)"
    by (simp only: f1 t2)
  show ?thesis
    using calculatePercentage_spec [of 160 NaN None 23 None 0]
      calculatePercentage_spec [of 160 NaN None 23 "Some 101" 0]
    by (simp add: t3 round_decimals_def round_half_away_def del: jmul.simps)
qed

section \<open>Loan payments\<close>








text \<open>
  Claim C4. With an annual rate of zero, a positive principal and a positive term,
  \<open>calculateMonthlyPayment\<close> returns \<open>principal / months\<close>, the quotient of the language: the
  Number nearest to the real quotient, within a relative error of \<open>2^(-53)\<close> of it in the
  normal range (this branch does not round to cents). A principal of 1000 over 10 months
  gives exactly 100.
\<close>

theorem calculateMonthlyPayment_zero_rate:
  assumes "0 < p" and "0 < n"
  shows "calculateMonthlyPayment pw (Fin p) (Fin 0) (Fin n) = Inr (fl (p / n)) \<and>
         (fl (p / n) = Fin q \<longrightarrow> pow2 (- 1022) \<le> p / n \<longrightarrow>
            \<bar>q - p / n\<bar> \<le> p / n / 2 ^ 53) \<and>
         calculateMonthlyPayment pw (Fin 1000) (Fin 0) (Fin 10) = Inr (Fin 100)"
proof -
  have "fl (1000 / 10) = Fin 100"
    using fl_eval [of 6 "1000 / 10"] by (simp add: pow2_def round_even_def Let_def)
  with assms have 1: "calculateMonthlyPayment pw (Fin p) (Fin 0) (Fin n) = Inr (fl (p / n))"
    and 3: "calculateMonthlyPayment pw (Fin 1000) (Fin 0) (Fin 10) = Inr (Fin 100)"
    by (simp_all add: calculateMonthlyPayment_def strict_eq_def)
  have pos: "\<bar>p / n\<bar> = p / n" using assms by simp
  have 2: "\<bar>q - p / n\<bar> \<le> p / n / 2 ^ 53" if "fl (p / n) = Fin q" "pow2 (- 1022) \<le> p / n"
    using fl_rel_error [of "p / n" q] that pos by simp
  from 1 2 3 show ?thesis by blast
qed

theorem calculateMonthlyPayment_zero_rate_witness:
  "(0 :: real) < 100 \<and> (0 :: real) < 3 \<and>
   calculateMonthlyPayment pow_rounded (Fin 100) (Fin 0) (Fin 3) =
     Inr (Fin (4691249611844267 / 140737488355328))"
proof -
  have "fl (100 / 3) = Fin (4691249611844267 / 140737488355328)"
    using fl_eval [of 5 "100 / 3"] by (simp add: pow2_def round_even_def Let_def)
  then show ?thesis
    using calculateMonthlyPayment_zero_rate [of 100 3 pow_rounded 0] by simp
qed

text \<open>
  Claim C2 says that a principal or a term of at most zero makes \<open>calculateMonthlyPayment\<close>
  fail. The function checks neither: a principal of \<open>-1000\<close> at rate zero over 10 months
  gives the number \<open>-100\<close>.
\<close>

theorem calculateMonthlyPayment_negative_principal:
  "calculateMonthlyPayment pow_rounded (Fin (- 1000)) (Fin 0) (Fin 10) = Inr (Fin (- 100))"
proof -
  have "fl (- (1000 / 10)) = Fin (- 100)"
    using fl_eval [of 6 "- (1000 / 10)"] by (simp add: pow2_def round_even_def Let_def)
  then show ?thesis by (simp add: calculateMonthlyPayment_def strict_eq_def)
qed

text \<open>
  Claim C2, amended. \<open>calculateMonthlyPayment\<close> validates nothing and never fails: for all
  arguments, a principal or term of at most zero included, it returns a Number; at rate
  zero that Number is the quotient \<open>principal / months\<close> of the language (an infinity or NaN
  when the term is zero).
\<close>

theorem calculateMonthlyPayment_never_fails:
  "(\<exists>v. calculateMonthlyPayment pw p r m = Inr v) \<and>
   calculateMonthlyPayment pw p (Fin 0) m = Inr (jdiv p m)"
  by (simp add: calculateMonthlyPayment_def Let_def toFixed_Number_def strict_eq_def
      del: jmul.simps jdiv.simps jadd.simps jpow.simps split: jsnum.split)

section \<open>Compound growth\<close>






section \<open>Growth without interest\<close>

lemma jpow_one: "jpow pw (Fin 1) (Fin y) = Fin 1"
  by simp

lemma jpow_zero: "jpow pw x (Fin 0) = Fin 1"
  by simp

lemma compound_no_growth:
  assumes "fl p = Fin p"
    and "rate = 0 \<and> f \<noteq> 0 \<and> (\<exists>y. jmul (Fin f) (Fin t) = Fin y) \<or> t = 0"
  shows "calculateCompoundInterest pw (Fin p) (Fin rate) (Fin t) (Some (Fin f)) =
           Inr (Fin (round_decimals 2 p))"
proof -
  have pw: "jpow pw (jadd (Fin 1) (jdiv (Fin rate) (Fin f))) (jmul (Fin f) (Fin t)) = Fin 1"
  proof (cases "t = 0")
    case True
    then have "jmul (Fin f) (Fin t) = Fin 0" by (simp add: fl_0)
    then show ?thesis by (simp only: jpow_zero)
  next
    case False
    with assms(2) obtain y where r: "rate = 0" "f \<noteq> 0" and y: "jmul (Fin f) (Fin t) = Fin y"
      by blast
    have "jadd (Fin 1) (jdiv (Fin rate) (Fin f)) = Fin 1"
      using r by (simp add: fl_0 fl_1)
    then show ?thesis by (simp only: y jpow_one)
  qed
  have "jmul (Fin p) (Fin 1) = Fin p" using assms(1) by simp
  then show ?thesis
    by (simp only: calculateCompoundInterest_def Let_def option.case pw toFixed_Number_2
        jsnum.case)
qed


text \<open>
  Claim C5 says that with a rate of zero or over zero years \<open>calculateCompoundInterest\<close>
  returns the principal unchanged. The result goes through \<^verbatim>\<open>toFixed(2)\<close> like every other:
  a principal of 1234.567 at rate zero comes back as 1234.57.
\<close>

theorem calculateCompoundInterest_rounds_principal:
  "calculateCompoundInterest pow_rounded (Fin (1234567 / 1000)) (Fin 0) (Fin 5) (Some (Fin 12)) =
     Inr (Fin (123457 / 100)) \<and>
   calculateCompoundInterest pow_rounded (Fin (1234567 / 1000)) (Fin 0) (Fin 5) (Some (Fin 12)) \<noteq>
     Inr (Fin (1234567 / 1000))"
proof -
  have b: "jadd (Fin 1) (jdiv (Fin 0) (Fin 12)) = Fin 1" by (simp add: fl_0 fl_1)
  have z1: "jmul (Fin 12) (Fin 5) = Fin 60"
    using fl_eval [of 5 "12 * 5"]
    by (simp add: pow2_def round_even_def Let_def jsub_def)
  have pw: "jpow pow_rounded (Fin 1) (Fin 60) = Fin 1" by simp
  have z2: "jmul (Fin (1234567 / 1000)) (Fin 1) = Fin (1357420771768533 / 1099511627776)"
    using fl_eval [of 10 "(1234567 / 1000) * 1"]
    by (simp add: pow2_def round_even_def Let_def jsub_def)
  have "calculateCompoundInterest pow_rounded (Fin (1234567 / 1000)) (Fin 0) (Fin 5)
      (Some (Fin 12)) = toFixed_Number (Fin (1357420771768533 / 1099511627776)) 2"
    by (simp only: calculateCompoundInterest_def Let_def option.case b z1 pw z2)
  also have "\<dots> = Inr (Fin (123457 / 100))"
    by (simp add: toFixed_Number_def toFixed_value_def toFixed_n_def)
  finally show ?thesis by simp
qed

text \<open>
  When \<open>f \<times> years\<close> overflows, the exponent is an infinity and the power of 1 is NaN in
  this language.
\<close>

lemma calculateCompoundInterest_overflow:
  "calculateCompoundInterest pw (Fin 1000) (Fin 0) (Fin (2 ^ 600)) (Some (Fin (2 ^ 600))) =
     Inr NaN"
proof -
  have b: "jadd (Fin 1) (jdiv (Fin 0) (Fin (2 ^ 600))) = Fin 1" by (simp add: fl_0 fl_1)
  have "fl (2 ^ 600 * 2 ^ 600) = PInf"
    using fl_overflow [of "2 ^ 600 * 2 ^ 600"] by simp
  then have m: "jmul (Fin (2 ^ 600)) (Fin (2 ^ 600)) = PInf" by simp
  have pw: "jpow pw (Fin 1) PInf = NaN" by simp
  have n: "jmul (Fin 1000) NaN = NaN" by simp
  show ?thesis
    by (simp only: calculateCompoundInterest_def Let_def option.case b m pw n toFixed_Number_2
        jsnum.case)
qed

text \<open>
  Claim C5, amended. For a principal that is a Number, with a rate of zero (a frequency
  other than zero, and \<open>f \<times> years\<close> a finite Number) or over zero years,
  \<open>calculateCompoundInterest\<close> returns the principal rounded to 2 decimal places, half away
  from zero: the principal itself when it is a whole number of hundredths. A principal of
  1000 at rate zero over 5 years, compounded 12 times a year, gives exactly 1000.
\<close>

theorem calculateCompoundInterest_no_growth:
  assumes "fl p = Fin p"
    and "rate = 0 \<and> f \<noteq> 0 \<and> (\<exists>y. jmul (Fin f) (Fin t) = Fin y) \<or> t = 0"
  shows "calculateCompoundInterest pw (Fin p) (Fin rate) (Fin t) (Some (Fin f)) =
           Inr (Fin (round_decimals 2 p)) \<and>
         (is_integral (p * 100) \<longrightarrow>
            calculateCompoundInterest pw (Fin p) (Fin rate) (Fin t) (Some (Fin f)) = Inr (Fin p)) \<and>
         calculateCompoundInterest pw (Fin 1000) (Fin 0) (Fin 5) (Some (Fin 12)) = Inr (Fin 1000)"
proof -
  have a: "calculateCompoundInterest pw (Fin p) (Fin rate) (Fin t) (Some (Fin f)) =
           Inr (Fin (round_decimals 2 p))"
    using assms by (rule compound_no_growth)
  have b: "is_integral (p * 100) \<Longrightarrow> round_decimals 2 p = p"
    using round_decimals_id [of p 2] by simp
  have "is_integral (1000 * 100)" by (simp add: is_integral_def)
  then have r: "round_decimals 2 1000 = 1000" using round_decimals_id [of 1000 2] by simp
  have k: "fl 1000 = Fin 1000"
    using fl_eval [of 9 1000] by (simp add: pow2_def round_even_def Let_def)
  have z1: "jmul (Fin 12) (Fin 5) = Fin 60"
    using fl_eval [of 5 "12 * 5"]
    by (simp add: pow2_def round_even_def Let_def jsub_def)
  have "calculateCompoundInterest pw (Fin 1000) (Fin 0) (Fin 5) (Some (Fin 12)) =
      Inr (Fin (round_decimals 2 1000))"
    using k z1 by (intro compound_no_growth) auto
  with r have c: "calculateCompoundInterest pw (Fin 1000) (Fin 0) (Fin 5) (Some (Fin 12)) =
      Inr (Fin 1000)" by simp
  from a b c show ?thesis by simp
qed

theorem calculateCompoundInterest_no_growth_witness:
  "fl (1 / 1024) = Fin (1 / 1024) \<and> fl (79 / 4) = Fin (79 / 4) \<and>
   ((0 :: real) = 0 \<and> (12 :: real) \<noteq> 0 \<and> (\<exists>y. jmul (Fin 12) (Fin 5) = Fin y) \<or>
    (5 :: real) = 0) \<and>
   calculateCompoundInterest pow_rounded (Fin (1 / 1024)) (Fin 0) (Fin 5) (Some (Fin 12)) =
     Inr (Fin 0) \<and>
   is_integral (79 / 4 * 100) \<and>
   calculateCompoundInterest pow_rounded (Fin (79 / 4)) (Fin 0) (Fin 5) (Some (Fin 12)) =
     Inr (Fin (79 / 4))"
proof -
  have k1: "fl (1 / 1024) = Fin (1 / 1024)"
    using fl_eval [of "- 10" "1 / 1024"] by (simp add: pow2_def round_even_def Let_def)
  have k2: "fl (79 / 4) = Fin (79 / 4)"
    using fl_eval [of 4 "79 / 4"] by (simp add: pow2_def round_even_def Let_def)
  have z1: "jmul (Fin 12) (Fin 5) = Fin 60"
    using fl_eval [of 5 "12 * 5"]
    by (simp add: pow2_def round_even_def Let_def jsub_def)
  have h: "(0 :: real) = 0 \<and> (12 :: real) \<noteq> 0 \<and> (\<exists>y. jmul (Fin 12) (Fin 5) = Fin y) \<or>
    (5 :: real) = 0"
    using z1 by (simp del: jmul.simps)
  have i: "is_integral (79 / 4 * 100)" by (simp add: is_integral_def)
  have r: "round_decimals 2 (1 / 1024) = 0" by (simp add: round_decimals_def round_half_away_def)
  show ?thesis
    using calculateCompoundInterest_no_growth [OF k1 h, of pow_rounded]
      calculateCompoundInterest_no_growth [OF k2 h, of pow_rounded] k1 k2 h i r
    by (simp add: round_decimals_def round_half_away_def del: jmul.simps)
qed

section \<open>The tax tables\<close>

text \<open>
  Claim C6. Every bracket of \<open>TAX_BRACKETS_2024\<close> has a lower bound of at least zero, an
  upper bound above it and a rate between 0 and 1; the table is ascending and contiguous,
  starts at zero and ends unbounded; and every income of at least zero lies in exactly one
  bracket, so the brackets do not overlap and cover everything from zero up.
\<close>

theorem TAX_BRACKETS_2024_invariant:
  assumes "0 \<le> x"
  shows "list_all bracket_wf TAX_BRACKETS_2024 \<and>
         ascending TAX_BRACKETS_2024 \<and>
         contiguous TAX_BRACKETS_2024 \<and>
         bracket_min (hd TAX_BRACKETS_2024) = Fin 0 \<and>
         bracket_max (last TAX_BRACKETS_2024) = PInf \<and>
         length (filter (in_bracket x) TAX_BRACKETS_2024) = 1"
  using assms
  by (simp add: TAX_BRACKETS_2024_def bracket_wf_def in_bracket_def)

theorem TAX_BRACKETS_2024_invariant_witness:
  "(0 :: real) \<le> 50000 \<and>
   length (filter (in_bracket 50000) TAX_BRACKETS_2024) = 1 \<and>
   filter (in_bracket 50000) TAX_BRACKETS_2024 =
     [\<lparr>bracket_min = Fin 44725, bracket_max = Fin 95375, bracket_rate = Fin (22 / 100)\<rparr>]"
  using TAX_BRACKETS_2024_invariant [of 50000]
  by (simp add: TAX_BRACKETS_2024_def in_bracket_def)

text \<open>
  Claim C9. No region key is both a key of \<open>STATE_TAX_RATES\<close> and a member of
  \<open>NO_TAX_STATES\<close>; the keys of \<open>STATE_TAX_RATES\<close> are all different, so a key has one rate.
\<close>

theorem state_tables_disjoint:
  "dom (map_of STATE_TAX_RATES) \<inter> NO_TAX_STATES = {} \<and> distinct (map fst STATE_TAX_RATES)"
  by (simp add: STATE_TAX_RATES_def NO_TAX_STATES_def dom_map_of_conv_image_fst)

section \<open>Properties of the parser\<close>

lemmas parseFloat_eval =
  parseFloat_def unsigned_literal_def Let_def is_ws_def is_digit_def digit_value_def
  digits_value_def exponent_part_def pow10_def ascii_def



lemma digit_not_ws: "is_digit c \<Longrightarrow> \<not> is_ws c"
  by (auto simp add: is_digit_def is_ws_def)











lemma parseFloat_examples:
  "parseFloat (ascii ''1e-400'') = Fin 0"
  "parseFloat (ascii ''1e400'') = PInf"
  "parseFloat (ascii ''9007199254740993'') = Fin 9007199254740992"
  "parseFloat (160 # ascii ''12'') = Fin 12"
proof -
  have "fl (1 / 10 ^ 400) = Fin 0"
    using fl_eval_subnormal [of "- 1329" "1 / 10 ^ 400"] by (simp add: pow2_def round_even_def Let_def)
  then show "parseFloat (ascii ''1e-400'') = Fin 0" by (simp add: parseFloat_eval)
  have "fl (10 ^ 400) = PInf"
    using fl_overflow [of "10 ^ 400"] by simp
  then show "parseFloat (ascii ''1e400'') = PInf" by (simp add: parseFloat_eval)
  have "fl 9007199254740993 = Fin 9007199254740992"
    using fl_eval [of 53 9007199254740993] by (simp add: pow2_def round_even_def Let_def)
  then show "parseFloat (ascii ''9007199254740993'') = Fin 9007199254740992"
    by (simp add: parseFloat_eval)
  show "parseFloat (160 # ascii ''12'') = Fin 12"
    using fl_12 by (simp add: parseFloat_eval)
qed

section \<open>Sanitized numbers\<close>











section \<open>The pay-amount check of the income form\<close>








end
